theory Spec2Isabelle
  imports Complex_Main
begin

section \<open>Numbers, bearings and the boat interface\<close>

text \<open>
  The controller of \<^verbatim>\<open>navigate.py\<close> computes with Python floats; they are modelled as
  reals, so rounding is outside this development. Python's \<^verbatim>\<open>x % m\<close> on floats with a
  positive modulus takes the sign of the modulus: the result lies in \<open>[0, m)\<close>.
\<close>

definition pymod :: "real \<Rightarrow> real \<Rightarrow> real" where
  "pymod x m = x - m * of_int \<lfloor>x / m\<rfloor>"

text \<open>
  Modelled from the spec: the \<^verbatim>\<open>Bearing\<close> type of the boat interface library is imported
  by the source, not defined by it. The spec describes it as a value on a circle of 360
  units whose constructor and arithmetic normalise, so a bearing is represented by its
  degrees in \<open>[0, 360)\<close>.
\<close>

definition Bearing :: "real \<Rightarrow> real" where
  "Bearing degrees = pymod degrees 360"

text \<open>
  Modelled from the spec: addition and subtraction of bearings (\<^verbatim>\<open>a + b\<close>, \<^verbatim>\<open>a - b\<close> on
  \<^verbatim>\<open>Bearing\<close> objects) are angle-producing operations and normalise their result.
  Comparisons of bearings compare the normalised degrees.
\<close>

definition bearing_add :: "real \<Rightarrow> real \<Rightarrow> real" where
  "bearing_add a b = Bearing (a + b)"

definition bearing_sub :: "real \<Rightarrow> real \<Rightarrow> real" where
  "bearing_sub a b = Bearing (a - b)"

text \<open>
  Modelled from the spec: \<^verbatim>\<open>delta(from, to)\<close> is the signed shortest rotation from one
  bearing to the other, in \<open>[-180, 180]\<close>. Both arguments are normalised bearings, so
  their difference lies in \<open>(-360, 360)\<close> and one correction by a full turn suffices.
\<close>

definition delta :: "real \<Rightarrow> real \<Rightarrow> real" where
  "delta a b =
     (let difference = b - a
      in if difference < - 180 then difference + 360
         else if difference > 180 then difference - 360
         else difference)"

text \<open>
  A target is a waypoint (\<^verbatim>\<open>boatdclient.Point\<close>, latitude and longitude) or a bare
  bearing; \<open>TBearing d\<close> stands for the object \<^verbatim>\<open>Bearing(d)\<close>. Python's \<^verbatim>\<open>None\<close> is the
  \<open>None\<close> of \<open>target option\<close>.
\<close>

datatype point = Point real real

datatype target = TPoint point | TBearing real

text \<open>
  Modelled from the spec: what one tick reads from the boat interface and from the
  clock. \<open>heading\<close>, \<open>wind_direction\<close> and \<open>wind_relative_direction\<close> are the reported
  degrees, wrapped into a \<^verbatim>\<open>Bearing\<close> when read; \<open>bearing_to\<close> and
  \<open>cross_track_distance\<close> are the methods of the current position (the interface
  declares \<^verbatim>\<open>bearing_to(Position) -> Angle\<close>, so they take waypoints only); \<open>now\<close> is
  \<^verbatim>\<open>time.time()\<close>.
\<close>

record readings =
  heading :: real
  bearing_to :: "point \<Rightarrow> real"
  cross_track_distance :: "point \<Rightarrow> point \<Rightarrow> real"
  wind_direction :: real
  wind_relative_direction :: real
  now :: real

text \<open>
  The exceptions the source can raise. \<open>TypeError\<close>: a comparison or \<^verbatim>\<open>delta\<close> on a
  target that is \<^verbatim>\<open>None\<close>. \<open>AttributeError\<close>: \<^verbatim>\<open>bearing_to\<close> called on a target that is
  not a waypoint. \<open>NameError\<close>: the call \<^verbatim>\<open>override_rudder()\<close> of line 160, a global name
  the module does not define (the method is \<^verbatim>\<open>self.override_rudder\<close>).
\<close>

datatype error = TypeError | AttributeError | NameError

section \<open>The source\<close>

subsection \<open>\<^verbatim>\<open>mirror_angle\<close> (lines 9 to 14)\<close>

definition mirror_angle :: "real \<Rightarrow> real" where
  "mirror_angle angle = (if angle > 180 then 180 - pymod angle 180 else angle)"

subsection \<open>The controller state and its constructor (lines 26 to 59)\<close>

record navigator =
  enable_tacking :: bool
  enable_cross_track_minimization :: bool
  enable_emergency_maneuver :: bool
  target :: "target option"
  prev_target :: "target option"
  hardover_rudder_timeout :: real
  hardover_rudder_threshold :: real
  k_p :: real
  k_i :: real
  integrator :: real
  integrator_max :: real
  last_time_rudder_not_maxed :: real
  tacking_left :: "bool option"
  tacking_right :: "bool option"
  cone_angle :: real
  tacking_angle :: real
  cross_track_error :: real

definition init :: "bool \<Rightarrow> bool \<Rightarrow> bool \<Rightarrow> navigator" where
  "init tacking cross_track emergency =
     \<lparr> enable_tacking = tacking,
       enable_cross_track_minimization = cross_track,
       enable_emergency_maneuver = emergency,
       target = None,
       prev_target = None,
       hardover_rudder_timeout = 20,
       hardover_rudder_threshold = 40,
       k_p = 6 / 10,
       k_i = 0,
       integrator = 0,
       integrator_max = 200,
       last_time_rudder_not_maxed = 0,
       tacking_left = None,
       tacking_right = None,
       cone_angle = Bearing 15,
       tacking_angle = Bearing 45,
       cross_track_error = 0 \<rparr>"

subsection \<open>\<^verbatim>\<open>set_target\<close> (lines 71 to 74)\<close>

definition set_target :: "navigator \<Rightarrow> target option \<Rightarrow> navigator" where
  "set_target n v = n\<lparr>target := v, integrator := 0\<rparr>"

subsection \<open>\<^verbatim>\<open>update_sail\<close> (lines 167 to 204)\<close>

text \<open>
  \<open>sail_table\<close> is the lookup of lines 175 to 202 on the local variable
  \<^verbatim>\<open>relative_wind_direction\<close>; \<open>update_sail\<close> computes that variable (line 173, a
  bearing plus 180, hence normalised) and returns the angle passed to \<^verbatim>\<open>set_sail\<close>.
\<close>

definition sail_table :: "real \<Rightarrow> real" where
  "sail_table relative_wind_direction =
     (if relative_wind_direction < 180 then
        (if relative_wind_direction < 45 then 0
         else if relative_wind_direction < 68 then 10
         else if relative_wind_direction < 90 then 20
         else if relative_wind_direction < 113 then 45
         else 90)
      else
        (if relative_wind_direction \<ge> 315 then 0
         else if relative_wind_direction \<ge> 292 then 10
         else if relative_wind_direction \<ge> 269 then 20
         else if relative_wind_direction \<ge> 246 then 45
         else 90))"

definition update_sail :: "readings \<Rightarrow> real" where
  "update_sail b = sail_table (bearing_add (Bearing (wind_relative_direction b)) 180)"

subsection \<open>\<^verbatim>\<open>update\<close> (lines 76 to 165)\<close>

text \<open>Lines 81 to 85: the desired heading; \<open>None\<close> when no target was ever set.\<close>

definition target_heading :: "navigator \<Rightarrow> readings \<Rightarrow> real option" where
  "target_heading n b =
     (case target n of
        Some (TPoint p) \<Rightarrow> Some (Bearing (bearing_to b p))
      | Some (TBearing d) \<Rightarrow> Some (Bearing d)
      | None \<Rightarrow> None)"

text \<open>Lines 87 to 92: the value of \<^verbatim>\<open>self.cross_track_error\<close> after the block.\<close>

definition cross_track :: "navigator \<Rightarrow> readings \<Rightarrow> real" where
  "cross_track n b =
     (if enable_cross_track_minimization n then
        (case (prev_target n, target n) of
           (Some (TPoint p), Some (TPoint q)) \<Rightarrow> cross_track_distance b p q * 1
         | _ \<Rightarrow> 0)
      else cross_track_error n)"

text \<open>
  Lines 94 to 136: the tacking logic, block by block. \<open>tacking_condition\<close> is the
  test of lines 95 to 97 on the desired heading.
\<close>

definition tacking_condition :: "navigator \<Rightarrow> readings \<Rightarrow> real \<Rightarrow> bool" where
  "tacking_condition n b th =
     (th < bearing_add (Bearing (wind_direction b)) (tacking_angle n) \<and>
      th > bearing_sub (Bearing (wind_direction b)) (tacking_angle n) \<and>
      enable_tacking n)"

text \<open>
  Lines 102 to 108: the initial tack, chosen when no side is committed. The pair is
  (\<^verbatim>\<open>tacking_right\<close>, \<^verbatim>\<open>tacking_left\<close>).
\<close>

definition initial_tack :: "navigator \<Rightarrow> real \<Rightarrow> bool option \<times> bool option" where
  "initial_tack n bearing_to_wind =
     (if tacking_right n = None \<or> tacking_left n = None then
        (if bearing_to_wind \<le> 180 then (Some True, Some False)
         else (Some False, Some True))
      else (tacking_right n, tacking_left n))"

text \<open>
  Lines 115 to 124, the branch taken when the folded bearing is at least the cone angle:
  two successive tests, each setting the heading and both flags.
\<close>

fun outside_cone ::
  "navigator \<Rightarrow> real \<Rightarrow> real \<Rightarrow> real \<Rightarrow> bool option \<times> bool option \<Rightarrow>
     real \<times> bool option \<times> bool option" where
  "outside_cone n wind th bearing_to_wind (right0, left0) =
     (let s1 = (if bearing_to_wind \<le> 180
                then (bearing_add wind (tacking_angle n), Some True, Some False)
                else (th, right0, left0))
      in if bearing_to_wind > 180
         then (bearing_sub wind (tacking_angle n), Some False, Some True)
         else s1)"

text \<open>
  Lines 128 to 133, the branch taken inside the cone: the heading of the committed
  side, the flags unchanged.
\<close>

fun inside_cone ::
  "navigator \<Rightarrow> real \<Rightarrow> real \<Rightarrow> bool option \<times> bool option \<Rightarrow>
     real \<times> bool option \<times> bool option" where
  "inside_cone n wind th (right0, left0) =
     (let h1 = (if left0 = Some True then bearing_sub wind (tacking_angle n) else th);
          h2 = (if right0 = Some True then bearing_add wind (tacking_angle n) else h1)
      in (h2, right0, left0))"

text \<open>
  The whole block. The result is the effective target heading with the new values of
  \<^verbatim>\<open>tacking_right\<close> and \<^verbatim>\<open>tacking_left\<close>. The comparison of line 95 raises when the
  target heading is \<^verbatim>\<open>None\<close>; line 98 calls \<^verbatim>\<open>bearing_to\<close> on the target itself,
  whatever its kind.
\<close>

definition tacking_logic ::
  "navigator \<Rightarrow> readings \<Rightarrow> real option \<Rightarrow> error + (real \<times> bool option \<times> bool option)" where
  "tacking_logic n b heading_opt =
     (case heading_opt of
        None \<Rightarrow> Inl TypeError
      | Some th \<Rightarrow>
          if tacking_condition n b th then
            (case target n of
               Some (TPoint p) \<Rightarrow>
                 (let wind = Bearing (wind_direction b);
                      bearing_to_wind = bearing_sub (Bearing (bearing_to b p)) wind;
                      flags = initial_tack n bearing_to_wind;
                      modulus_to_wind = mirror_angle bearing_to_wind
                  in if modulus_to_wind \<ge> cone_angle n
                     then Inr (outside_cone n wind th bearing_to_wind flags)
                     else Inr (inside_cone n wind th flags))
             | _ \<Rightarrow> Inl AttributeError)
          else Inr (th, None, None))"

text \<open>Lines 141 to 145: the clamp of the integrator.\<close>

definition clamp_integrator :: "real \<Rightarrow> real \<Rightarrow> real" where
  "clamp_integrator i imax =
     (if i > imax then imax else if i < - imax then - imax else i)"

text \<open>Lines 149 to 152: the clamp of the rudder angle (two successive tests).\<close>

definition clamp_rudder :: "real \<Rightarrow> real" where
  "clamp_rudder r =
     (let r1 = (if r > 180 then 180 else r)
      in if r1 < - 180 then - 180 else r1)"

text \<open>
  Lines 156 to 160: the emergency watchdog. The result is the new value of
  \<^verbatim>\<open>last_time_rudder_not_maxed\<close>, or the exception raised where the recovery manoeuvre
  is triggered: line 160 calls \<^verbatim>\<open>override_rudder()\<close> without \<^verbatim>\<open>self.\<close>, so the trigger
  is a \<^verbatim>\<open>NameError\<close> and the method of lines 61 to 69 never runs.
\<close>

definition watchdog :: "navigator \<Rightarrow> real \<Rightarrow> real \<Rightarrow> error + real" where
  "watchdog n t rudder_angle =
     (if enable_emergency_maneuver n then
        (if \<bar>rudder_angle\<bar> < hardover_rudder_threshold n then Inr t
         else if t - last_time_rudder_not_maxed n > hardover_rudder_timeout n
              then Inl NameError
         else Inr (last_time_rudder_not_maxed n))
      else Inr (last_time_rudder_not_maxed n))"

text \<open>
  What a completed tick emits: the values of the \<^verbatim>\<open>print\<close> of line 162 (heading, wanted
  heading, error) and the two actuator commands.
\<close>

record tick_output =
  out_heading :: real
  out_wanted :: real
  out_error :: real
  out_rudder :: real
  out_sail :: real

definition update :: "navigator \<Rightarrow> readings \<Rightarrow> error + (navigator \<times> tick_output)" where
  "update n b =
     (let current_heading = Bearing (heading b);
          cte = cross_track n b
      in case tacking_logic n b (target_heading n b) of
           Inl e \<Rightarrow> Inl e
         | Inr (wanted, right, left) \<Rightarrow>
             (let err = delta current_heading wanted + cte;
                  integ = clamp_integrator (integrator n + err) (integrator_max n);
                  rudder_angle = clamp_rudder (- (k_p n * err + k_i n * integ))
              in (case watchdog n (now b) rudder_angle of
                    Inl e \<Rightarrow> Inl e
                  | Inr not_maxed \<Rightarrow>
                      Inr (n\<lparr>cross_track_error := cte,
                             tacking_right := right,
                             tacking_left := left,
                             integrator := integ,
                             last_time_rudder_not_maxed := not_maxed\<rparr>,
                           \<lparr>out_heading = current_heading,
                            out_wanted = wanted,
                            out_error = err,
                            out_rudder = rudder_angle,
                            out_sail = update_sail b\<rparr>))))"

subsection \<open>\<^verbatim>\<open>run\<close> (lines 206 to 216)\<close>

text \<open>
  One iteration of the loop: \<open>new\<close> is what \<^verbatim>\<open>check_new_target\<close> returned. The loop
  itself never returns; \<open>run\<close> executes it on a finite list of iterations (the answer of
  \<^verbatim>\<open>check_new_target\<close> and the readings of each), stopping at the first exception, and
  returns the state reached with the commands emitted.
\<close>

definition run_step :: "navigator \<Rightarrow> target option \<Rightarrow> readings \<Rightarrow> error + (navigator \<times> tick_output)" where
  "run_step n new b =
     (case new of
        Some t \<Rightarrow> update (set_target (n\<lparr>prev_target := target n\<rparr>) (Some t)) b
      | None \<Rightarrow> update n b)"

fun run :: "navigator \<Rightarrow> (target option \<times> readings) list \<Rightarrow> error + (navigator \<times> tick_output list)" where
  "run n [] = Inr (n, [])"
| "run n ((new, b) # ticks) =
     (case run_step n new b of
        Inl e \<Rightarrow> Inl e
      | Inr (n', out) \<Rightarrow>
          (case run n' ticks of
             Inl e \<Rightarrow> Inl e
           | Inr (n'', outs) \<Rightarrow> Inr (n'', out # outs)))"

subsection \<open>Sample readings\<close>

text \<open>
  The readings used in the examples below: boat heading \<open>h\<close>, bearing \<open>bt\<close> to every
  waypoint, wind direction \<open>w\<close>, clock \<open>t\<close>; no cross-track distance and a relative wind
  of 0.
\<close>

definition sample :: "real \<Rightarrow> real \<Rightarrow> real \<Rightarrow> real \<Rightarrow> readings" where
  "sample h bt w t =
     \<lparr>heading = h, bearing_to = (\<lambda>p. bt), cross_track_distance = (\<lambda>p q. 0),
      wind_direction = w, wind_relative_direction = 0, now = t\<rparr>"

subsection \<open>The states of the loop\<close>

text \<open>
  No method assigns the gains, the limits or the two angles after the constructor, the
  two tacking flags are assigned together, and the integrator is clamped or reset on
  every assignment. \<open>coherent\<close> collects these facts; it holds of every state the loop
  reaches.
\<close>

definition coherent :: "navigator \<Rightarrow> bool" where
  "coherent n =
     (k_p n = 6 / 10 \<and> k_i n = 0 \<and> integrator_max n = 200 \<and>
      hardover_rudder_timeout n = 20 \<and> hardover_rudder_threshold n = 40 \<and>
      cone_angle n = 15 \<and> tacking_angle n = 45 \<and>
      (tacking_right n, tacking_left n) \<in>
         {(None, None), (Some True, Some False), (Some False, Some True)} \<and>
      - 200 \<le> integrator n \<and> integrator n \<le> 200)"

section \<open>Arithmetic of bearings\<close>

lemma pymod_range: "0 < m \<Longrightarrow> 0 \<le> pymod x m \<and> pymod x m < m"
proof -
  assume m: "0 < m"
  have lo: "of_int \<lfloor>x / m\<rfloor> * m \<le> x" using m by (rule floor_divide_lower)
  have hi: "x < (of_int \<lfloor>x / m\<rfloor> + 1) * m" using m by (rule floor_divide_upper)
  show ?thesis using lo hi by (simp add: pymod_def algebra_simps)
qed

lemma pymod_small: "0 \<le> x \<Longrightarrow> x < m \<Longrightarrow> pymod x m = x"
proof -
  assume a: "0 \<le> x" "x < m"
  then have "\<lfloor>x / m\<rfloor> = 0" by (simp add: floor_eq_iff)
  then show ?thesis by (simp add: pymod_def)
qed

lemma pymod_second: "m \<le> x \<Longrightarrow> x < 2 * m \<Longrightarrow> 0 < m \<Longrightarrow> pymod x m = x - m"
proof -
  assume a: "m \<le> x" "x < 2 * m" "0 < m"
  then have "\<lfloor>x / m\<rfloor> = 1"
    by (simp add: floor_eq_iff pos_le_divide_eq pos_divide_less_eq)
  then show ?thesis by (simp add: pymod_def)
qed

lemma pymod_neg: "- m \<le> x \<Longrightarrow> x < 0 \<Longrightarrow> pymod x m = x + m"
proof -
  assume a: "- m \<le> x" "x < 0"
  then have m: "0 < m" by simp
  have "\<lfloor>x / m\<rfloor> = - 1"
    using a m by (simp add: floor_eq_iff pos_le_divide_eq pos_divide_less_eq)
  then show ?thesis by (simp add: pymod_def)
qed

lemma Bearing_range: "0 \<le> Bearing x \<and> Bearing x < 360"
  using pymod_range [of 360 x] by (simp add: Bearing_def)

section \<open>\<^verbatim>\<open>mirror_angle\<close>\<close>

lemma mirror_angle_fold: "0 \<le> x \<Longrightarrow> x < 360 \<Longrightarrow> mirror_angle x = min x (360 - x)"
  by (simp add: mirror_angle_def pymod_second min_def)

text \<open>
  C8, as the code has it. On \<open>[0, 360)\<close> the function folds the circle onto \<open>[0, 180]\<close>:
  it is \<open>min x (360 - x)\<close>, so 0 gives 0, 180 gives 180 (not 0) and 270 gives 90. It does
  not normalise its argument: an argument of at most 180, negative ones included, is
  returned unchanged, and a larger one gives 180 minus its remainder modulo 180. Its one
  caller passes a difference of bearings, which is normalised, and there the result is
  in \<open>[0, 180]\<close>.
\<close>

theorem mirror_angle_folds_half_circle:
  "(0 \<le> x \<and> x < 360 \<longrightarrow>
      0 \<le> mirror_angle x \<and> mirror_angle x \<le> 180 \<and> mirror_angle x = min x (360 - x)) \<and>
   mirror_angle 0 = 0 \<and> mirror_angle 180 = 180 \<and> mirror_angle 270 = 90 \<and>
   (y \<le> 180 \<longrightarrow> mirror_angle y = y) \<and>
   (y > 180 \<longrightarrow> mirror_angle y = 180 - pymod y 180) \<and>
   0 \<le> mirror_angle (bearing_sub a b) \<and> mirror_angle (bearing_sub a b) \<le> 180"
proof -
  have f: "0 \<le> x \<and> x < 360 \<longrightarrow>
      0 \<le> mirror_angle x \<and> mirror_angle x \<le> 180 \<and> mirror_angle x = min x (360 - x)"
    by (auto simp: mirror_angle_fold)
  have c: "mirror_angle 0 = 0 \<and> mirror_angle 180 = 180 \<and> mirror_angle 270 = 90"
    by (simp add: mirror_angle_def pymod_def)
  have d: "(y \<le> 180 \<longrightarrow> mirror_angle y = y) \<and>
           (y > 180 \<longrightarrow> mirror_angle y = 180 - pymod y 180)"
    by (simp add: mirror_angle_def)
  have e: "0 \<le> mirror_angle (bearing_sub a b) \<and> mirror_angle (bearing_sub a b) \<le> 180"
    using Bearing_range [of "a - b"] by (auto simp: bearing_sub_def mirror_angle_fold)
  show ?thesis using f c d e by blast
qed

theorem mirror_angle_folds_half_circle_witness:
  "(0::real) \<le> 200 \<and> (200::real) < 360 \<and> mirror_angle 200 = 160 \<and>
   (- 10::real) \<le> 180 \<and> mirror_angle (- 10) = - 10 \<and>
   (370::real) > 180 \<and> mirror_angle 370 = 170 \<and>
   mirror_angle (bearing_sub 10 20) = 10"
  using mirror_angle_folds_half_circle [of 200 "- 10" 10 20]
        mirror_angle_folds_half_circle [of 200 370 10 20]
  by (simp add: pymod_def bearing_sub_def Bearing_def mirror_angle_def)

text \<open>
  C8 as stated fails: 180 is mapped to 180, and neither a negative argument nor one
  above 360 is reduced modulo 360 first.
\<close>

theorem mirror_angle_not_normalising:
  "mirror_angle 180 \<noteq> 0 \<and>
   mirror_angle (- 10) \<noteq> mirror_angle (pymod (- 10) 360) \<and>
   mirror_angle 370 \<noteq> mirror_angle (pymod 370 360)"
  by (simp add: mirror_angle_def pymod_def)

section \<open>The sail table\<close>








section \<open>New targets\<close>

text \<open>
  C9. \<^verbatim>\<open>set_target\<close> installs its argument and sets the integrator to 0 whatever it was.
  An iteration of the loop that received a target from \<^verbatim>\<open>check_new_target\<close> saves the
  current target as \<^verbatim>\<open>prev_target\<close>, installs the new one and runs \<^verbatim>\<open>update\<close> from an
  integrator of exactly 0; an iteration that received \<^verbatim>\<open>None\<close> runs \<^verbatim>\<open>update\<close> on the
  state as it is.
\<close>

theorem new_target_resets_integrator:
  "integrator (set_target n v) = 0 \<and> target (set_target n v) = v \<and>
   run_step n (Some t) b =
     update (n\<lparr>prev_target := target n, target := Some t, integrator := 0\<rparr>) b \<and>
   prev_target (n\<lparr>prev_target := target n, target := Some t, integrator := 0\<rparr>) = target n \<and>
   run_step n None b = update n b"
  by (simp add: set_target_def run_step_def)

section \<open>The tacking logic\<close>

lemma initial_tack_flags:
  "(tacking_right n, tacking_left n) \<in> {(None, None), (Some True, Some False), (Some False, Some True)}
   \<Longrightarrow> initial_tack n x \<in> {(Some True, Some False), (Some False, Some True)}"
  by (auto simp: initial_tack_def)

lemma outside_cone_result:
  "outside_cone n wind th x fl =
     (if x \<le> 180 then (bearing_add wind (tacking_angle n), Some True, Some False)
      else (bearing_sub wind (tacking_angle n), Some False, Some True))"
  by (cases fl) (simp add: Let_def)

lemma inside_cone_result:
  "fl \<in> {(Some True, Some False), (Some False, Some True)} \<Longrightarrow>
   inside_cone n wind th fl =
     (if fst fl = Some True then (bearing_add wind (tacking_angle n), Some True, Some False)
      else (bearing_sub wind (tacking_angle n), Some False, Some True))"
  by (auto simp: Let_def)

lemma tacking_logic_idle:
  "\<not> tacking_condition n b th \<Longrightarrow> tacking_logic n b (Some th) = Inr (th, None, None)"
  by (simp add: tacking_logic_def)

lemma tacking_logic_engaged:
  assumes "tacking_condition n b th" and "tacking_logic n b (Some th) = Inr (w, r, l)"
      and "(tacking_right n, tacking_left n) \<in>
             {(None, None), (Some True, Some False), (Some False, Some True)}"
  obtains p where "target n = Some (TPoint p)"
    and "(w, r, l) =
      (let wind = Bearing (wind_direction b);
           btw = bearing_sub (Bearing (bearing_to b p)) wind
       in if (if mirror_angle btw \<ge> cone_angle n then btw \<le> 180
              else fst (initial_tack n btw) = Some True)
          then (bearing_add wind (tacking_angle n), Some True, Some False)
          else (bearing_sub wind (tacking_angle n), Some False, Some True))"
proof -
  from assms(1,2) obtain p where p: "target n = Some (TPoint p)"
    by (auto simp: tacking_logic_def split: option.splits target.splits)
  let ?wind = "Bearing (wind_direction b)"
  let ?btw = "bearing_sub (Bearing (bearing_to b p)) ?wind"
  have fl: "initial_tack n ?btw \<in> {(Some True, Some False), (Some False, Some True)}"
    using assms(3) by (rule initial_tack_flags)
  have "Inr (w, r, l) =
     (if mirror_angle ?btw \<ge> cone_angle n
      then Inr (outside_cone n ?wind th ?btw (initial_tack n ?btw))
      else (Inr (inside_cone n ?wind th (initial_tack n ?btw)) :: error + _))"
    using assms(1,2) p by (simp add: tacking_logic_def Let_def)
  then have "(w, r, l) =
     (if mirror_angle ?btw \<ge> cone_angle n
      then outside_cone n ?wind th ?btw (initial_tack n ?btw)
      else inside_cone n ?wind th (initial_tack n ?btw))"
    by (simp split: if_splits)
  then have "(w, r, l) =
      (if (if mirror_angle ?btw \<ge> cone_angle n then ?btw \<le> 180
              else fst (initial_tack n ?btw) = Some True)
          then (bearing_add ?wind (tacking_angle n), Some True, Some False)
          else (bearing_sub ?wind (tacking_angle n), Some False, Some True))"
    using inside_cone_result [OF fl] by (simp add: outside_cone_result split: if_splits)
  then show ?thesis using p that by (simp add: Let_def)
qed

lemma tacking_logic_flags:
  assumes "(tacking_right n, tacking_left n) \<in>
         {(None, None), (Some True, Some False), (Some False, Some True)}"
      and "tacking_logic n b h = Inr (w, r, l)"
  shows "(r, l) \<in> {(None, None), (Some True, Some False), (Some False, Some True)}"
proof (cases h)
  case None
  then show ?thesis using assms(2) by (simp add: tacking_logic_def)
next
  case (Some th)
  show ?thesis
  proof (cases "tacking_condition n b th")
    case False
    then show ?thesis using assms(2) Some by (simp add: tacking_logic_idle)
  next
    case True
    from assms(2) have e: "tacking_logic n b (Some th) = Inr (w, r, l)" using Some by simp
    from True e assms(1) show ?thesis
      by (rule tacking_logic_engaged) (simp add: Let_def split: if_splits)
  qed
qed

section \<open>One tick and the loop\<close>

lemma init_coherent: "coherent (init tk ct em)"
  by (simp add: coherent_def init_def Bearing_def pymod_def)

lemma clamp_integrator_range: "0 \<le> m \<Longrightarrow> - m \<le> clamp_integrator i m \<and> clamp_integrator i m \<le> m"
  by (simp add: clamp_integrator_def)

lemma clamp_integrator_minmax: "0 \<le> m \<Longrightarrow> clamp_integrator i m = max (- m) (min m i)"
  by (simp add: clamp_integrator_def min_def max_def)

lemma clamp_rudder_minmax: "clamp_rudder r = max (- 180) (min 180 r)"
  by (simp add: clamp_rudder_def min_def max_def Let_def)


lemma update_Inr:
  assumes "update n b = Inr (n', out)"
  obtains w r l t where
    "tacking_logic n b (target_heading n b) = Inr (w, r, l)"
    "out = \<lparr>out_heading = Bearing (heading b), out_wanted = w,
            out_error = delta (Bearing (heading b)) w + cross_track n b,
            out_rudder = clamp_rudder (- (k_p n * (delta (Bearing (heading b)) w + cross_track n b) +
               k_i n * clamp_integrator (integrator n + (delta (Bearing (heading b)) w + cross_track n b))
                          (integrator_max n))),
            out_sail = update_sail b\<rparr>"
    "watchdog n (now b) (out_rudder out) = Inr t"
    "n' = n\<lparr>cross_track_error := cross_track n b, tacking_right := r, tacking_left := l,
            integrator := clamp_integrator (integrator n + out_error out) (integrator_max n),
            last_time_rudder_not_maxed := t\<rparr>"
proof (cases "tacking_logic n b (target_heading n b)")
  case (Inl e)
  then show ?thesis using assms by (simp add: update_def)
next
  case (Inr res)
  obtain w r l where res: "res = (w, r, l)" by (cases res)
  let ?err = "delta (Bearing (heading b)) w + cross_track n b"
  let ?integ = "clamp_integrator (integrator n + ?err) (integrator_max n)"
  let ?rud = "clamp_rudder (- (k_p n * ?err + k_i n * ?integ))"
  show ?thesis
  proof (cases "watchdog n (now b) ?rud")
    case (Inl e)
    then show ?thesis using assms Inr res by (simp add: update_def Let_def)
  next
    case wd: (Inr t)
    from assms Inr res wd have
      "n' = n\<lparr>cross_track_error := cross_track n b, tacking_right := r, tacking_left := l,
            integrator := ?integ, last_time_rudder_not_maxed := t\<rparr>"
      "out = \<lparr>out_heading = Bearing (heading b), out_wanted = w, out_error = ?err,
            out_rudder = ?rud, out_sail = update_sail b\<rparr>"
      by (simp_all add: update_def Let_def)
    then show ?thesis using that [of w r l t] Inr res wd by simp
  qed
qed

lemma update_coherent:
  assumes "coherent n" and "update n b = Inr (n', out)"
  shows "coherent n'"
proof -
  from assms(2) obtain w r l t where
    tl: "tacking_logic n b (target_heading n b) = Inr (w, r, l)" and
    n': "n' = n\<lparr>cross_track_error := cross_track n b, tacking_right := r, tacking_left := l,
            integrator := clamp_integrator (integrator n + out_error out) (integrator_max n),
            last_time_rudder_not_maxed := t\<rparr>"
    by (rule update_Inr)
  have "(tacking_right n, tacking_left n) \<in>
         {(None, None), (Some True, Some False), (Some False, Some True)}"
    using assms(1) by (simp add: coherent_def)
  then have fl: "(r, l) \<in> {(None, None), (Some True, Some False), (Some False, Some True)}"
    using tl by (rule tacking_logic_flags)
  have ig: "- 200 \<le> clamp_integrator (integrator n + out_error out) 200 \<and>
            clamp_integrator (integrator n + out_error out) 200 \<le> 200"
    using clamp_integrator_range [of 200] by simp
  show ?thesis using assms(1) fl ig unfolding n' coherent_def by simp
qed

lemma run_step_coherent:
  assumes "coherent n" and "run_step n new b = Inr (n', out)"
  shows "coherent n'"
proof (cases new)
  case None
  then show ?thesis using assms by (simp add: run_step_def update_coherent)
next
  case (Some t)
  have c: "coherent (set_target (n\<lparr>prev_target := target n\<rparr>) (Some t))"
    using assms(1) by (simp add: coherent_def set_target_def)
  have "update (set_target (n\<lparr>prev_target := target n\<rparr>) (Some t)) b = Inr (n', out)"
    using assms(2) Some by (simp add: run_step_def)
  with c show ?thesis by (rule update_coherent)
qed

lemma run_Cons_Inr:
  assumes "run n ((new, b) # ticks) = Inr (n', outs)"
  obtains m out outs' where "run_step n new b = Inr (m, out)"
    and "run m ticks = Inr (n', outs')" and "outs = out # outs'"
  using assms by (auto split: sum.splits prod.splits)

lemma run_coherent: "coherent n \<Longrightarrow> run n ticks = Inr (n', outs) \<Longrightarrow> coherent n'"
proof (induction ticks arbitrary: n outs)
  case Nil
  then show ?case by simp
next
  case (Cons tick ticks)
  obtain new b where tick: "tick = (new, b)" by (cases tick)
  from Cons.prems(2) obtain m out outs' where
    st: "run_step n new b = Inr (m, out)" and rest: "run m ticks = Inr (n', outs')"
    unfolding tick by (rule run_Cons_Inr)
  have "coherent m" using Cons.prems(1) st by (rule run_step_coherent)
  then show ?case using rest by (rule Cons.IH)
qed

lemma run_init_coherent: "run (init tk ct em) ticks = Inr (n, outs) \<Longrightarrow> coherent n"
  using init_coherent by (rule run_coherent)

lemma run_step_None: "run_step n None b = update n b"
  by (simp add: run_step_def)

lemma run_step_Some:
  "run_step n (Some t) b =
     update (n\<lparr>prev_target := target n, target := Some t, integrator := 0\<rparr>) b"
  by (simp add: run_step_def set_target_def)

lemma coherent_new_target:
  "coherent n \<Longrightarrow> coherent (n\<lparr>prev_target := target n, target := Some t, integrator := 0\<rparr>)"
  by (simp add: coherent_def)


lemma run_step_update:
  assumes "coherent n" and "run_step n new b = Inr (n', out)"
  shows "\<exists>m. coherent m \<and> update m b = Inr (n', out) \<and>
           integrator m = (if new = None then integrator n else 0) \<and>
           target m = (case new of None \<Rightarrow> target n | Some t \<Rightarrow> Some t) \<and>
           integrator_max m = integrator_max n \<and> k_p m = k_p n \<and> k_i m = k_i n \<and>
           tacking_right m = tacking_right n \<and> tacking_left m = tacking_left n \<and>
           enable_tacking m = enable_tacking n \<and> tacking_angle m = tacking_angle n \<and>
           cone_angle m = cone_angle n"
proof (cases new)
  case None
  have "update n b = Inr (n', out)" using assms(2) unfolding None run_step_None .
  then show ?thesis unfolding None using assms(1) by (intro exI [of _ n]) simp
next
  case (Some t)
  let ?m = "n\<lparr>prev_target := target n, target := Some t, integrator := 0\<rparr>"
  have c: "coherent ?m" using assms(1) by (rule coherent_new_target)
  have u: "update ?m b = Inr (n', out)" using assms(2) unfolding Some run_step_Some .
  show ?thesis unfolding Some using c u by (intro exI [of _ ?m]) simp
qed

lemmas evaluate =
  run_step_def update_def set_target_def init_def sample_def tacking_logic_def
  tacking_condition_def initial_tack_def target_heading_def cross_track_def bearing_add_def
  bearing_sub_def Bearing_def pymod_def delta_def clamp_integrator_def clamp_rudder_def
  watchdog_def update_sail_def sail_table_def mirror_angle_def Let_def

lemma update_pid:
  assumes "update n b = Inr (n', out)"
  shows "out_error out = delta (Bearing (heading b)) (out_wanted out) + cross_track_error n'"
    and "integrator n' = clamp_integrator (integrator n + out_error out) (integrator_max n)"
    and "out_rudder out = clamp_rudder (- (k_p n * out_error out + k_i n * integrator n'))"
proof -
  from assms obtain w r l t where
    out: "out = \<lparr>out_heading = Bearing (heading b), out_wanted = w,
            out_error = delta (Bearing (heading b)) w + cross_track n b,
            out_rudder = clamp_rudder (- (k_p n * (delta (Bearing (heading b)) w + cross_track n b) +
               k_i n * clamp_integrator (integrator n + (delta (Bearing (heading b)) w + cross_track n b))
                          (integrator_max n))),
            out_sail = update_sail b\<rparr>" and
    n': "n' = n\<lparr>cross_track_error := cross_track n b, tacking_right := r, tacking_left := l,
            integrator := clamp_integrator (integrator n + out_error out) (integrator_max n),
            last_time_rudder_not_maxed := t\<rparr>"
    by (rule update_Inr)
  show "out_error out = delta (Bearing (heading b)) (out_wanted out) + cross_track_error n'"
    by (simp add: out n')
  show "integrator n' = clamp_integrator (integrator n + out_error out) (integrator_max n)"
    by (simp add: n')
  show "out_rudder out = clamp_rudder (- (k_p n * out_error out + k_i n * integrator n'))"
    by (simp add: out n')
qed

lemma tacking_logic_integrator:
  "tacking_logic (n\<lparr>integrator := x\<rparr>) b h = tacking_logic n b h"
proof -
  have c: "\<And>th. tacking_condition (n\<lparr>integrator := x\<rparr>) b th = tacking_condition n b th"
    by (simp add: tacking_condition_def)
  have i: "\<And>y. initial_tack (n\<lparr>integrator := x\<rparr>) y = initial_tack n y"
    by (simp add: initial_tack_def)
  have out: "\<And>wd th y fl. outside_cone (n\<lparr>integrator := x\<rparr>) wd th y fl = outside_cone n wd th y fl"
    by (simp add: outside_cone_result)
  have ins: "\<And>wd th fl. inside_cone (n\<lparr>integrator := x\<rparr>) wd th fl = inside_cone n wd th fl"
    subgoal for wd th fl by (cases fl) simp
    done
  show ?thesis unfolding tacking_logic_def c i out ins
    by (simp split: option.splits target.splits)
qed

lemma watchdog_integrator: "watchdog (n\<lparr>integrator := x\<rparr>) t r = watchdog n t r"
  by (simp add: watchdog_def)

lemma update_eq:
  assumes "tacking_logic n b (target_heading n b) = Inr (w, r, l)"
      and "R = clamp_rudder (- (k_p n * (delta (Bearing (heading b)) w + cross_track n b) +
               k_i n * clamp_integrator (integrator n + (delta (Bearing (heading b)) w + cross_track n b))
                          (integrator_max n)))"
      and "watchdog n (now b) R = Inr t"
  shows "update n b =
     Inr (n\<lparr>cross_track_error := cross_track n b, tacking_right := r, tacking_left := l,
            integrator := clamp_integrator
               (integrator n + (delta (Bearing (heading b)) w + cross_track n b)) (integrator_max n),
            last_time_rudder_not_maxed := t\<rparr>,
          \<lparr>out_heading = Bearing (heading b), out_wanted = w,
            out_error = delta (Bearing (heading b)) w + cross_track n b,
            out_rudder = R, out_sail = update_sail b\<rparr>)"
  using assms(1,3) unfolding assms(2) by (simp add: update_def Let_def)

lemma target_heading_integrator:
  "target_heading (n\<lparr>integrator := x\<rparr>) b = target_heading n b"
  by (simp add: target_heading_def)


section \<open>The heading controller\<close>

text \<open>
  C4. The integrator stays within \<open>[-integrator_max, integrator_max]\<close>: in every state
  the loop reaches from the constructor, whatever targets and readings the iterations
  received, and after any single \<^verbatim>\<open>update\<close> from a state whose limit is not negative.
\<close>

theorem integrator_bounded:
  "(run (init tk ct em) ticks = Inr (n, outs) \<longrightarrow>
      - integrator_max n \<le> integrator n \<and> integrator n \<le> integrator_max n) \<and>
   (0 \<le> integrator_max m \<and> update m b = Inr (m', out) \<longrightarrow>
      - integrator_max m' \<le> integrator m' \<and> integrator m' \<le> integrator_max m')"
proof (intro conjI impI)
  assume r: "run (init tk ct em) ticks = Inr (n, outs)"
  have "coherent n" using r by (rule run_init_coherent)
  then show "- integrator_max n \<le> integrator n" and "integrator n \<le> integrator_max n"
    by (simp_all add: coherent_def)
next
  assume a: "0 \<le> integrator_max m \<and> update m b = Inr (m', out)"
  then have u: "update m b = Inr (m', out)" and p: "0 \<le> integrator_max m" by simp_all
  from u obtain w :: real and r l t where
    m': "m' = m\<lparr>cross_track_error := cross_track m b, tacking_right := r, tacking_left := l,
            integrator := clamp_integrator (integrator m + out_error out) (integrator_max m),
            last_time_rudder_not_maxed := t\<rparr>"
    by (rule update_Inr)
  show "- integrator_max m' \<le> integrator m'" and "integrator m' \<le> integrator_max m'"
    using clamp_integrator_range [OF p, of "integrator m + out_error out"] by (simp_all add: m')
qed


theorem integrator_bounded_witness:
  "map_sum id (\<lambda>(n, outs). (integrator n,
       - integrator_max n \<le> integrator n \<and> integrator n \<le> integrator_max n))
     (run (init False False False)
        [(Some (TBearing 90), sample 0 0 180 1000), (None, sample 0 0 180 1001),
         (None, sample 0 0 180 1002)]) = Inr (200, True) \<and>
   map_sum id (\<lambda>(m, out). (integrator m,
       - integrator_max m \<le> integrator m \<and> integrator m \<le> integrator_max m))
     (update ((init False False False)\<lparr>target := Some (TBearing 270), integrator := - 150\<rparr>)
        (sample 0 0 180 1000)) = Inr (- 200, True)"
proof -
  let ?ticks = "[(Some (TBearing 90), sample 0 0 180 1000), (None, sample 0 0 180 1001),
         (None, sample 0 0 180 1002)]"
  let ?m = "(init False False False)\<lparr>target := Some (TBearing 270), integrator := - 150\<rparr>"
  have "\<exists>n outs. run (init False False False) ?ticks = Inr (n, outs) \<and> integrator n = 200"
    by (simp add: evaluate)
  then obtain n outs where r: "run (init False False False) ?ticks = Inr (n, outs)"
    and i: "integrator n = 200" by blast
  have "\<exists>m' out. update ?m (sample 0 0 180 1000) = Inr (m', out) \<and> integrator m' = - 200"
    by (simp add: evaluate)
  then obtain m' out where u: "update ?m (sample 0 0 180 1000) = Inr (m', out)"
    and j: "integrator m' = - 200" by blast
  have p: "0 \<le> integrator_max ?m" by (simp add: init_def)
  from integrator_bounded [of False False False ?ticks n outs ?m "sample 0 0 180 1000" m' out]
       r u p i j
  show ?thesis by simp
qed

text \<open>
  C3. On every tick of the loop that completes, whether or not the iteration received a
  new target, the error is the delta from the current heading to the effective target
  heading plus the cross-track error, the integrator is the one the tick starts from
  (the old one, or 0 when a new target was installed) plus the error, clamped to the
  limit, and the rudder command is \<open>-(k_p * error + k_i * integrator)\<close> clamped to
  \<open>[-180, 180]\<close>. With the gains of the constructor, which nothing changes, a positive
  error gives a rudder command that is not positive. The three equations also hold for
  a single \<^verbatim>\<open>update\<close> from any state whose limit is not negative.
\<close>

theorem pid_tick:
  "(run (init tk ct em) ticks = Inr (n, outs) \<and> run_step n new b = Inr (n', out) \<longrightarrow>
      out_error out = delta (Bearing (heading b)) (out_wanted out) + cross_track_error n' \<and>
      integrator n' =
        max (- integrator_max n)
          (min (integrator_max n) ((if new = None then integrator n else 0) + out_error out)) \<and>
      out_rudder out =
        max (- 180) (min 180 (- (k_p n * out_error out + k_i n * integrator n'))) \<and>
      (0 < out_error out \<longrightarrow> out_rudder out \<le> 0)) \<and>
   (0 \<le> integrator_max m \<and> update m c = Inr (m', res) \<longrightarrow>
      out_error res = delta (Bearing (heading c)) (out_wanted res) + cross_track_error m' \<and>
      integrator m' =
        max (- integrator_max m) (min (integrator_max m) (integrator m + out_error res)) \<and>
      out_rudder res =
        max (- 180) (min 180 (- (k_p m * out_error res + k_i m * integrator m'))))"
proof -
  have any: "out_error res = delta (Bearing (heading c)) (out_wanted res) + cross_track_error m' \<and>
      integrator m' =
        max (- integrator_max m) (min (integrator_max m) (integrator m + out_error res)) \<and>
      out_rudder res =
        max (- 180) (min 180 (- (k_p m * out_error res + k_i m * integrator m')))"
    if lim: "0 \<le> integrator_max m" and u: "update m c = Inr (m', res)"
    for m c m' res
  proof -
    have e: "out_error res = delta (Bearing (heading c)) (out_wanted res) + cross_track_error m'"
      by (rule update_pid(1) [OF u])
    have i: "integrator m' =
        max (- integrator_max m) (min (integrator_max m) (integrator m + out_error res))"
      unfolding update_pid(2) [OF u] by (rule clamp_integrator_minmax [OF lim])
    have r: "out_rudder res =
        max (- 180) (min 180 (- (k_p m * out_error res + k_i m * integrator m')))"
      unfolding update_pid(3) [OF u] by (rule clamp_rudder_minmax)
    show ?thesis using e i r by (intro conjI)
  qed
  have tick: "out_error out = delta (Bearing (heading b)) (out_wanted out) + cross_track_error n' \<and>
      integrator n' =
        max (- integrator_max n)
          (min (integrator_max n) ((if new = None then integrator n else 0) + out_error out)) \<and>
      out_rudder out =
        max (- 180) (min 180 (- (k_p n * out_error out + k_i n * integrator n'))) \<and>
      (0 < out_error out \<longrightarrow> out_rudder out \<le> 0)"
    if r: "run (init tk ct em) ticks = Inr (n, outs)" and s: "run_step n new b = Inr (n', out)"
  proof -
    have cn: "coherent n" using r by (rule run_init_coherent)
    from run_step_update [OF cn s] obtain p where cp: "coherent p"
      and u: "update p b = Inr (n', out)"
      and ip: "integrator p = (if new = None then integrator n else 0)"
      and mp: "integrator_max p = integrator_max n" and kp: "k_p p = k_p n"
      and ki: "k_i p = k_i n"
      by blast
    have lim: "0 \<le> integrator_max p" and kpv: "k_p n = 6 / 10" and kiv: "k_i n = 0"
      using cp cn by (simp_all add: coherent_def)
    note a = any [OF lim u, unfolded ip mp kp ki]
    from a have rd: "out_rudder out =
        max (- 180) (min 180 (- (k_p n * out_error out + k_i n * integrator n')))"
      by (elim conjE)
    have sg: "0 < out_error out \<longrightarrow> out_rudder out \<le> 0"
      unfolding rd kpv kiv by (simp add: min_def max_def)
    show ?thesis using a sg by (intro conjI) (elim conjE; assumption)+
  qed
  show ?thesis
  proof (intro conjI impI)
    assume h: "run (init tk ct em) ticks = Inr (n, outs) \<and> run_step n new b = Inr (n', out)"
    from h have r: "run (init tk ct em) ticks = Inr (n, outs)" by (rule conjunct1)
    from h have s: "run_step n new b = Inr (n', out)" by (rule conjunct2)
    note t = tick [OF r s]
    show "out_error out = delta (Bearing (heading b)) (out_wanted out) + cross_track_error n'"
      using t by (elim conjE)
    show "integrator n' =
        max (- integrator_max n)
          (min (integrator_max n) ((if new = None then integrator n else 0) + out_error out))"
      using t by (elim conjE)
    show "out_rudder out =
        max (- 180) (min 180 (- (k_p n * out_error out + k_i n * integrator n')))"
      using t by (elim conjE)
    show "out_rudder out \<le> 0" if "0 < out_error out"
      using t that by (elim conjE) (rule mp)
  next
    assume h: "0 \<le> integrator_max m \<and> update m c = Inr (m', res)"
    from h have lim: "0 \<le> integrator_max m" by (rule conjunct1)
    from h have u: "update m c = Inr (m', res)" by (rule conjunct2)
    note t = any [OF lim u]
    show "out_error res = delta (Bearing (heading c)) (out_wanted res) + cross_track_error m'"
      using t by (elim conjE)
    show "integrator m' =
        max (- integrator_max m) (min (integrator_max m) (integrator m + out_error res))"
      using t by (elim conjE)
    show "out_rudder res =
        max (- 180) (min 180 (- (k_p m * out_error res + k_i m * integrator m')))"
      using t by (elim conjE)
  qed
qed

theorem pid_tick_witness:
  "map_sum id (\<lambda>(n, outs). (integrator n,
       map_sum id (\<lambda>(n', out).
         (out_error out, integrator n', out_rudder out, 0 < out_error out, out_rudder out \<le> 0))
         (run_step n None (sample 0 0 180 1002)),
       map_sum id (\<lambda>(n', out).
         (out_error out, integrator n', out_rudder out, 0 < out_error out, out_rudder out \<le> 0))
         (run_step n (Some (TBearing 50)) (sample 0 0 180 1002))))
     (run (init True True True)
        [(Some (TBearing 40), sample 30 0 180 1000), (None, sample 30 0 180 1001)])
   = Inr (20, Inr (40, 60, - 24, True, True), Inr (50, 50, - 30, True, True)) \<and>
   map_sum id (\<lambda>(m', out). (out_error out, integrator m', out_rudder out))
     (update ((init False False False)\<lparr>target := Some (TBearing 270), integrator := - 150,
                 k_i := 1 / 10\<rparr>) (sample 0 0 180 1000))
   = Inr (- 90, - 200, 74)"
proof -
  let ?ticks = "[(Some (TBearing 40), sample 30 0 180 1000), (None, sample 30 0 180 1001)]"
  let ?b = "sample 0 0 180 1002"
  let ?m = "(init False False False)\<lparr>target := Some (TBearing 270), integrator := - 150,
                 k_i := 1 / 10\<rparr>"
  let ?c = "sample 0 0 180 1000"
  have "\<exists>n outs. run (init True True True) ?ticks = Inr (n, outs) \<and>
          integrator n = 20 \<and> k_p n = 6 / 10 \<and> k_i n = 0 \<and> integrator_max n = 200 \<and>
          (\<exists>n1 out1. run_step n None ?b = Inr (n1, out1) \<and> out_wanted out1 = 40 \<and>
             cross_track_error n1 = 0) \<and>
          (\<exists>n2 out2. run_step n (Some (TBearing 50)) ?b = Inr (n2, out2) \<and>
             out_wanted out2 = 50 \<and> cross_track_error n2 = 0)"
    by (simp add: evaluate)
  then obtain n outs n1 out1 n2 out2 where
        r: "run (init True True True) ?ticks = Inr (n, outs)"
    and v: "integrator n = 20" "k_p n = 6 / 10" "k_i n = 0" "integrator_max n = 200"
    and s1: "run_step n None ?b = Inr (n1, out1)"
    and v1: "out_wanted out1 = 40" "cross_track_error n1 = 0"
    and s2: "run_step n (Some (TBearing 50)) ?b = Inr (n2, out2)"
    and v2: "out_wanted out2 = 50" "cross_track_error n2 = 0"
    by blast
  have "\<exists>m' res. update ?m ?c = Inr (m', res) \<and> out_wanted res = 270 \<and>
           cross_track_error m' = 0"
    by (simp add: evaluate)
  then obtain m' res where u: "update ?m ?c = Inr (m', res)"
    and w: "out_wanted res = 270" "cross_track_error m' = 0" by blast
  have lim: "0 \<le> integrator_max ?m" by (simp add: init_def)
  have h: "delta (Bearing (heading ?b)) 40 = 40" "delta (Bearing (heading ?b)) 50 = 50"
          "delta (Bearing (heading ?c)) 270 = - 90"
    by (simp_all add: evaluate)
  have g: "integrator ?m = - 150" "integrator_max ?m = 200" "k_p ?m = 6 / 10" "k_i ?m = 1 / 10"
    by (simp_all add: init_def)
  note t1 = pid_tick [of True True True ?ticks n outs None ?b n1 out1 ?m ?c m' res]
  note t2 = pid_tick [of True True True ?ticks n outs "Some (TBearing 50)" ?b n2 out2 ?m ?c m' res]
  from t1 r s1 have e1: "out_error out1 = 40" by (simp add: v v1 h)
  from t1 r s1 have i1: "integrator n1 = 60" by (simp add: v e1)
  from t1 r s1 have d1: "out_rudder out1 = - 24" by (simp add: v e1 i1)
  from t2 r s2 have e2: "out_error out2 = 50" by (simp add: v v2 h)
  from t2 r s2 have i2: "integrator n2 = 50" by (simp add: v e2)
  from t2 r s2 have d2: "out_rudder out2 = - 30" by (simp add: v e2 i2)
  from t1 u lim have e3: "out_error res = - 90" by (simp add: w h)
  from t1 u lim have i3: "integrator m' = - 200" unfolding g by (simp add: e3)
  from t1 u lim have d3: "out_rudder res = 74" unfolding g by (simp add: e3 i3)
  show ?thesis unfolding r by (simp add: v s1 s2 u e1 i1 d1 e2 i2 d2 e3 i3 d3)
qed

text \<open>
  C10. The constructor sets \<open>k_p = 0.6\<close> and \<open>k_i = 0\<close>. With these gains the rudder
  command of a completed tick is \<open>-(0.6 * error)\<close> clamped to \<open>[-180, 180]\<close>, and the
  tick emits the same commands from any other value of the integrator.
\<close>

theorem default_gains_ignore_integrator:
  "k_p (init tk ct em) = 6 / 10 \<and> k_i (init tk ct em) = 0 \<and>
   (k_p n = 6 / 10 \<and> k_i n = 0 \<and> update n b = Inr (n', out) \<longrightarrow>
      out_rudder out = max (- 180) (min 180 (- (6 / 10 * out_error out))) \<and>
      (\<forall>x. \<exists>m. update (n\<lparr>integrator := x\<rparr>) b = Inr (m, out)))"
proof (intro conjI impI)
  show "k_p (init tk ct em) = 6 / 10" and "k_i (init tk ct em) = 0" by (simp_all add: init_def)
next
  assume a: "k_p n = 6 / 10 \<and> k_i n = 0 \<and> update n b = Inr (n', out)"
  then have kp: "k_p n = 6 / 10" and ki: "k_i n = 0" and u: "update n b = Inr (n', out)"
    by simp_all
  show "out_rudder out = max (- 180) (min 180 (- (6 / 10 * out_error out)))"
    using update_pid(3) [OF u] by (simp add: clamp_rudder_minmax kp ki)
  from u obtain w r l t where
    tl: "tacking_logic n b (target_heading n b) = Inr (w, r, l)" and
    out: "out = \<lparr>out_heading = Bearing (heading b), out_wanted = w,
            out_error = delta (Bearing (heading b)) w + cross_track n b,
            out_rudder = clamp_rudder (- (k_p n * (delta (Bearing (heading b)) w + cross_track n b) +
               k_i n * clamp_integrator (integrator n + (delta (Bearing (heading b)) w + cross_track n b))
                          (integrator_max n))),
            out_sail = update_sail b\<rparr>" and
    wd: "watchdog n (now b) (out_rudder out) = Inr t"
    by (rule update_Inr)
  show "\<forall>x. \<exists>m. update (n\<lparr>integrator := x\<rparr>) b = Inr (m, out)"
  proof
    fix x
    have tl': "tacking_logic (n\<lparr>integrator := x\<rparr>) b (target_heading (n\<lparr>integrator := x\<rparr>) b)
                = Inr (w, r, l)"
      using tl by (simp add: tacking_logic_integrator target_heading_integrator)
    have ct': "cross_track (n\<lparr>integrator := x\<rparr>) b = cross_track n b"
      by (simp add: cross_track_def)
    have ro: "out_rudder out =
         clamp_rudder (- (k_p (n\<lparr>integrator := x\<rparr>) *
              (delta (Bearing (heading b)) w + cross_track (n\<lparr>integrator := x\<rparr>) b) +
            k_i (n\<lparr>integrator := x\<rparr>) *
              clamp_integrator (integrator (n\<lparr>integrator := x\<rparr>) +
                  (delta (Bearing (heading b)) w + cross_track (n\<lparr>integrator := x\<rparr>) b))
                (integrator_max (n\<lparr>integrator := x\<rparr>))))"
      by (simp add: out ki ct')
    have wd': "watchdog (n\<lparr>integrator := x\<rparr>) (now b) (out_rudder out) = Inr t"
      using wd by (simp add: watchdog_integrator)
    have o: "out = \<lparr>out_heading = Bearing (heading b), out_wanted = w,
            out_error = delta (Bearing (heading b)) w + cross_track (n\<lparr>integrator := x\<rparr>) b,
            out_rudder = out_rudder out, out_sail = update_sail b\<rparr>"
      unfolding ct' by (simp add: out)
    show "\<exists>m. update (n\<lparr>integrator := x\<rparr>) b = Inr (m, out)"
      using update_eq [OF tl' ro wd'] o by metis
  qed
qed

theorem default_gains_ignore_integrator_witness:
  "map_sum id (\<lambda>(n', out). (out_error out, out_rudder out))
     (update ((init True True True)\<lparr>target := Some (TBearing 40)\<rparr>) (sample 0 0 180 1000))
     = Inr (40, - 24) \<and>
   map_sum id (\<lambda>(n', out). (out_error out, out_rudder out))
     (update ((init True True True)\<lparr>target := Some (TBearing 40), integrator := 150\<rparr>)
        (sample 0 0 180 1000))
     = Inr (40, - 24)"
proof -
  let ?n = "(init True True True)\<lparr>target := Some (TBearing 40)\<rparr>"
  let ?b = "sample 0 0 180 1000"
  have "\<exists>n' out. update ?n ?b = Inr (n', out) \<and> out_error out = 40"
    by (simp add: evaluate)
  then obtain n' out where u: "update ?n ?b = Inr (n', out)" and e: "out_error out = 40"
    by blast
  have g: "k_p ?n = 6 / 10 \<and> k_i ?n = 0 \<and> update ?n ?b = Inr (n', out)"
    using u by (simp add: init_def)
  from default_gains_ignore_integrator [of True True True ?n ?b n' out] g
  have d: "out_rudder out = max (- 180) (min 180 (- (6 / 10 * out_error out)))"
    and a: "\<forall>x. \<exists>m. update (?n\<lparr>integrator := x\<rparr>) ?b = Inr (m, out)"
    by blast+
  from a obtain m where w: "update (?n\<lparr>integrator := 150\<rparr>) ?b = Inr (m, out)" by blast
  have d': "out_rudder out = - 24" using d by (simp add: e)
  show ?thesis using u w e d' by simp
qed

section \<open>The tacking state machine\<close>

lemma window_no_wrap:
  assumes "45 \<le> w" "w < 315" "0 \<le> h" "h < 360"
  shows "(h < bearing_add w 45 \<and> h > bearing_sub w 45) \<longleftrightarrow> \<bar>delta w h\<bar> < 45"
proof -
  have a: "bearing_add w 45 = w + 45"
    using assms by (simp add: bearing_add_def Bearing_def pymod_small)
  have s: "bearing_sub w 45 = w - 45"
    using assms by (simp add: bearing_sub_def Bearing_def pymod_small)
  show ?thesis unfolding a s delta_def Let_def using assms by (simp; linarith)
qed

lemma initial_tack_fresh:
  "tacking_right n = None \<Longrightarrow> (fst (initial_tack n x) = Some True) = (x \<le> 180)"
  by (simp add: initial_tack_def)

lemma initial_tack_held:
  "tacking_right n \<noteq> None \<Longrightarrow> tacking_left n \<noteq> None \<Longrightarrow>
   initial_tack n x = (tacking_right n, tacking_left n)"
  by (simp add: initial_tack_def)

lemma tacking_engagement_update:
  assumes "coherent n"
      and "target n = Some (TPoint p)"
      and "update n b = Inr (n', out)"
      and "45 \<le> Bearing (wind_direction b)" and "Bearing (wind_direction b) < 315"
  shows "tacking_angle n = 45 \<and> cone_angle n = 15 \<and>
    ((tacking_right n' \<noteq> None) =
       (enable_tacking n \<and>
        \<bar>delta (Bearing (wind_direction b)) (Bearing (bearing_to b p))\<bar> < tacking_angle n)) \<and>
    (tacking_right n' = None \<longrightarrow>
       tacking_left n' = None \<and> out_wanted out = Bearing (bearing_to b p)) \<and>
    (tacking_right n' = Some True \<longrightarrow>
       tacking_left n' = Some False \<and>
       out_wanted out = bearing_add (Bearing (wind_direction b)) (tacking_angle n)) \<and>
    (tacking_right n' = Some False \<longrightarrow>
       tacking_left n' = Some True \<and>
       out_wanted out = bearing_sub (Bearing (wind_direction b)) (tacking_angle n)) \<and>
    (tacking_right n' \<noteq> None \<and>
     (tacking_right n = None \<or>
      cone_angle n \<le> mirror_angle
         (bearing_sub (Bearing (bearing_to b p)) (Bearing (wind_direction b)))) \<longrightarrow>
       (tacking_right n' = Some True) =
       (bearing_sub (Bearing (bearing_to b p)) (Bearing (wind_direction b)) \<le> 180)) \<and>
    (tacking_right n' \<noteq> None \<and> tacking_right n \<noteq> None \<and>
     mirror_angle (bearing_sub (Bearing (bearing_to b p)) (Bearing (wind_direction b)))
       < cone_angle n \<longrightarrow>
       tacking_right n' = tacking_right n)"
proof -
  let ?W = "Bearing (wind_direction b)"
  let ?H = "Bearing (bearing_to b p)"
  let ?X = "bearing_sub ?H ?W"
  from assms(1) have ta: "tacking_angle n = 45" and ca: "cone_angle n = 15"
    and fl: "(tacking_right n, tacking_left n) \<in>
               {(None, None), (Some True, Some False), (Some False, Some True)}"
    by (simp_all add: coherent_def)
  have th: "target_heading n b = Some ?H" by (simp add: target_heading_def assms(2))
  from assms(3) obtain wv rr ll t where
    tl: "tacking_logic n b (target_heading n b) = Inr (wv, rr, ll)" and
    out: "out = \<lparr>out_heading = Bearing (heading b), out_wanted = wv,
            out_error = delta (Bearing (heading b)) wv + cross_track n b,
            out_rudder = clamp_rudder (- (k_p n * (delta (Bearing (heading b)) wv + cross_track n b) +
               k_i n * clamp_integrator (integrator n + (delta (Bearing (heading b)) wv + cross_track n b))
                          (integrator_max n))),
            out_sail = update_sail b\<rparr>" and
    n': "n' = n\<lparr>cross_track_error := cross_track n b, tacking_right := rr, tacking_left := ll,
            integrator := clamp_integrator (integrator n + out_error out) (integrator_max n),
            last_time_rudder_not_maxed := t\<rparr>"
    by (rule update_Inr)
  have sel: "tacking_right n' = rr" "tacking_left n' = ll" "out_wanted out = wv"
    by (simp_all add: n' out)
  have tl': "tacking_logic n b (Some ?H) = Inr (wv, rr, ll)" using tl th by simp
  have cond: "tacking_condition n b ?H =
                (enable_tacking n \<and> \<bar>delta ?W ?H\<bar> < tacking_angle n)"
    using window_no_wrap [OF assms(4,5), of ?H] Bearing_range [of "bearing_to b p"]
    by (auto simp: tacking_condition_def ta)
  show ?thesis
  proof (cases "tacking_condition n b ?H")
    case False
    then have "(wv, rr, ll) = (?H, None, None)"
      using tl' by (simp add: tacking_logic_idle)
    then show ?thesis using False cond ta ca by (simp add: sel)
  next
    case True
    let ?D = "if cone_angle n \<le> mirror_angle ?X then ?X \<le> 180
              else fst (initial_tack n ?X) = Some True"
    from True tl' fl have res: "(wv, rr, ll) =
        (if ?D then (bearing_add ?W (tacking_angle n), Some True, Some False)
         else (bearing_sub ?W (tacking_angle n), Some False, Some True))"
    proof (rule tacking_logic_engaged)
      fix q
      assume "target n = Some (TPoint q)"
      then have "q = p" using assms(2) by simp
      moreover assume "(wv, rr, ll) =
        (let wind = ?W; btw = bearing_sub (Bearing (bearing_to b q)) wind
         in if (if cone_angle n \<le> mirror_angle btw then btw \<le> 180
                else fst (initial_tack n btw) = Some True)
            then (bearing_add wind (tacking_angle n), Some True, Some False)
            else (bearing_sub wind (tacking_angle n), Some False, Some True))"
      ultimately show ?thesis by (simp add: Let_def)
    qed
    have fresh: "tacking_right n = None \<or> cone_angle n \<le> mirror_angle ?X \<Longrightarrow> ?D = (?X \<le> 180)"
      using initial_tack_fresh [of n ?X] by auto
    have held: "?D = (tacking_right n = Some True)"
      if a: "tacking_right n \<noteq> None" "mirror_angle ?X < cone_angle n"
    proof -
      have "tacking_left n \<noteq> None" using fl a(1) by auto
      then have "fst (initial_tack n ?X) = tacking_right n"
        using a(1) by (simp add: initial_tack_held)
      then show ?thesis using a(2) by simp
    qed
    define D where "D \<longleftrightarrow> ?D"
    have resD: "(wv, rr, ll) =
        (if D then (bearing_add ?W (tacking_angle n), Some True, Some False)
         else (bearing_sub ?W (tacking_angle n), Some False, Some True))"
      using res unfolding D_def .
    have rd: "rr = (if D then Some True else Some False)"
      using resD by (cases D) simp_all
    have e: "rr \<noteq> None" unfolding rd by (cases D) simp_all
    have k1: "(rr \<noteq> None) = (enable_tacking n \<and> \<bar>delta ?W ?H\<bar> < tacking_angle n)"
      using e True cond by simp
    have k3: "rr = Some True \<longrightarrow> ll = Some False \<and> wv = bearing_add ?W (tacking_angle n)"
      using resD by (cases D) simp_all
    have k4: "rr = Some False \<longrightarrow> ll = Some True \<and> wv = bearing_sub ?W (tacking_angle n)"
      using resD by (cases D) simp_all
    have rt: "(rr = Some True) = D" unfolding rd by (cases D) simp_all
    have k5: "rr \<noteq> None \<and> (tacking_right n = None \<or> cone_angle n \<le> mirror_angle ?X) \<longrightarrow>
               (rr = Some True) = (?X \<le> 180)"
    proof
      assume a: "rr \<noteq> None \<and> (tacking_right n = None \<or> cone_angle n \<le> mirror_angle ?X)"
      then have "?D = (?X \<le> 180)" using fresh by blast
      then show "(rr = Some True) = (?X \<le> 180)" unfolding rt D_def .
    qed
    have k6: "rr \<noteq> None \<and> tacking_right n \<noteq> None \<and> mirror_angle ?X < cone_angle n \<longrightarrow>
               rr = tacking_right n"
    proof
      assume a: "rr \<noteq> None \<and> tacking_right n \<noteq> None \<and> mirror_angle ?X < cone_angle n"
      then have d: "D = (tacking_right n = Some True)" unfolding D_def using held by blast
      from a obtain v where v: "tacking_right n = Some v" by (cases "tacking_right n") auto
      show "rr = tacking_right n" unfolding rd d v by (cases v) simp_all
    qed
    show ?thesis unfolding sel using ta ca k1 e k3 k4 k5 k6 by blast
  qed
qed


text \<open>
  C2, as the code has it, for a waypoint target and a wind direction in \<open>[45, 315)\<close>,
  where neither edge of the window wraps. On a tick of the loop that completes, whether
  the waypoint was already the target or arrives on this tick, the state machine engages
  (a side is committed afterwards) exactly when tacking is enabled and the desired
  heading is less than \<open>tacking_angle\<close> (45, not the \<open>cone_angle\<close> of 15) away from the
  wind direction. When it does not engage, both flags are cleared and the desired
  heading is used unchanged. When it engages, the effective heading is the wind
  direction plus \<open>tacking_angle\<close> on a right tack and minus \<open>tacking_angle\<close> on a left
  tack; the side is right exactly if \<open>bearing_to_wind \<le> 180\<close> when no side was
  committed or the folded bearing is at least \<open>cone_angle\<close>, and the side committed
  before is kept otherwise. With the wind at 100 and a waypoint bearing 105 the heading
  is 145 when no side was committed and 55 when a left tack was.
\<close>

theorem tacking_tick:
  assumes "run (init tk ct em) ticks = Inr (n, outs)"
      and "new = None \<and> target n = Some (TPoint p) \<or> new = Some (TPoint p)"
      and "run_step n new b = Inr (n', out)"
      and "45 \<le> Bearing (wind_direction b)" and "Bearing (wind_direction b) < 315"
  shows "tacking_angle n = 45 \<and> cone_angle n = 15 \<and>
    ((tacking_right n' \<noteq> None) =
       (enable_tacking n \<and>
        \<bar>delta (Bearing (wind_direction b)) (Bearing (bearing_to b p))\<bar> < tacking_angle n)) \<and>
    (tacking_right n' = None \<longrightarrow>
       tacking_left n' = None \<and> out_wanted out = Bearing (bearing_to b p)) \<and>
    (tacking_right n' = Some True \<longrightarrow>
       tacking_left n' = Some False \<and>
       out_wanted out = bearing_add (Bearing (wind_direction b)) (tacking_angle n)) \<and>
    (tacking_right n' = Some False \<longrightarrow>
       tacking_left n' = Some True \<and>
       out_wanted out = bearing_sub (Bearing (wind_direction b)) (tacking_angle n)) \<and>
    (tacking_right n' \<noteq> None \<and>
     (tacking_right n = None \<or>
      cone_angle n \<le> mirror_angle
         (bearing_sub (Bearing (bearing_to b p)) (Bearing (wind_direction b)))) \<longrightarrow>
       (tacking_right n' = Some True) =
       (bearing_sub (Bearing (bearing_to b p)) (Bearing (wind_direction b)) \<le> 180)) \<and>
    (tacking_right n' \<noteq> None \<and> tacking_right n \<noteq> None \<and>
     mirror_angle (bearing_sub (Bearing (bearing_to b p)) (Bearing (wind_direction b)))
       < cone_angle n \<longrightarrow>
       tacking_right n' = tacking_right n)"
proof -
  have cn: "coherent n" using assms(1) by (rule run_init_coherent)
  from run_step_update [OF cn assms(3)] obtain m where cm: "coherent m"
    and u: "update m b = Inr (n', out)"
    and tm: "target m = (case new of None \<Rightarrow> target n | Some t \<Rightarrow> Some t)"
    and f: "tacking_right m = tacking_right n" "enable_tacking m = enable_tacking n"
           "tacking_angle m = tacking_angle n" "cone_angle m = cone_angle n"
    by blast
  have p: "target m = Some (TPoint p)"
    using assms(2)
  proof
    assume "new = None \<and> target n = Some (TPoint p)"
    then show ?thesis unfolding tm by simp
  next
    assume "new = Some (TPoint p)"
    then show ?thesis unfolding tm by simp
  qed
  show ?thesis
    using tacking_engagement_update [OF cm p u assms(4,5)] unfolding f .
qed

theorem tacking_tick_witness:
  "map_sum id (\<lambda>(n', out). (tacking_right n', tacking_left n', out_wanted out))
     (run_step (init True True True) (Some (TPoint (Point 0 0))) (sample 140 105 100 1000))
   = Inr (Some True, Some False, 145) \<and>
   map_sum id (\<lambda>(n, outs). (target n, tacking_right n,
       map_sum id (\<lambda>(n', out). (tacking_right n', tacking_left n', out_wanted out))
         (run_step n None (sample 50 105 100 1001))))
     (run (init True True True) [(Some (TPoint (Point 0 0)), sample 50 95 100 1000)])
   = Inr (Some (TPoint (Point 0 0)), Some False, Inr (Some False, Some True, 55)) \<and>
   45 \<le> Bearing 100 \<and> Bearing 100 < 315 \<and> \<bar>delta (Bearing 100) (Bearing 105)\<bar> < 45"
proof -
  let ?i = "init True True True"
  let ?p = "Point 0 0"
  let ?b1 = "sample 140 105 100 1000"
  let ?ticks = "[(Some (TPoint ?p), sample 50 95 100 1000)]"
  let ?b2 = "sample 50 105 100 1001"
  have r0: "run ?i [] = Inr (?i, [])" by simp
  have "\<exists>n1 out1. run_step ?i (Some (TPoint ?p)) ?b1 = Inr (n1, out1)"
    by (simp add: evaluate)
  then obtain n1 out1 where s1: "run_step ?i (Some (TPoint ?p)) ?b1 = Inr (n1, out1)"
    by blast
  have "\<exists>n outs. run ?i ?ticks = Inr (n, outs) \<and>
          target n = Some (TPoint ?p) \<and> tacking_right n = Some False \<and>
          enable_tacking n \<and> (\<exists>n2 out2. run_step n None ?b2 = Inr (n2, out2))"
    by (simp add: evaluate)
  then obtain n outs n2 out2 where r: "run ?i ?ticks = Inr (n, outs)"
    and p: "target n = Some (TPoint ?p)" and s: "tacking_right n = Some False"
    and en: "enable_tacking n" and s2: "run_step n None ?b2 = Inr (n2, out2)"
    by blast
  have w: "Bearing (wind_direction ?b1) = 100" "Bearing (bearing_to ?b1 ?p) = 105"
          "Bearing (wind_direction ?b2) = 100" "Bearing (bearing_to ?b2 ?p) = 105"
    by (simp_all add: sample_def Bearing_def pymod_def)
  have w1: "45 \<le> Bearing (wind_direction ?b1)" "Bearing (wind_direction ?b1) < 315"
           "45 \<le> Bearing (wind_direction ?b2)" "Bearing (wind_direction ?b2) < 315"
    by (simp_all add: w)
  have d: "\<bar>delta 100 105\<bar> < (45::real)" by (simp add: delta_def)
  have m: "mirror_angle (bearing_sub 105 100) < 15" "bearing_sub 105 100 \<le> 180"
          "bearing_add 100 45 = 145" "bearing_sub 100 45 = 55"
    by (simp_all add: mirror_angle_def bearing_sub_def bearing_add_def Bearing_def pymod_def)
  have i: "enable_tacking ?i" "tacking_right ?i = None" by (simp_all add: init_def)
  have g1: "Some (TPoint ?p) = None \<and> target ?i = Some (TPoint ?p) \<or>
            Some (TPoint ?p) = Some (TPoint ?p)" by simp
  have g2: "None = None \<and> target n = Some (TPoint ?p) \<or> None = Some (TPoint ?p)"
    using p by simp
  note t1 = tacking_tick [OF r0 g1 s1 w1(1,2), unfolded w]
  from t1 have ta1: "tacking_angle ?i = 45" by blast
  from t1 i d ta1 have e1: "tacking_right n1 \<noteq> None" by simp
  from t1 e1 i m have k1: "tacking_right n1 = Some True" by simp
  from t1 k1 m ta1 have l1: "tacking_left n1 = Some False" and o1: "out_wanted out1 = 145"
    by simp_all
  note t2 = tacking_tick [OF r g2 s2 w1(3,4), unfolded w]
  from t2 have ta2: "tacking_angle n = 45" and ca2: "cone_angle n = 15" by blast+
  from t2 en d ta2 have e2: "tacking_right n2 \<noteq> None" by simp
  from t2 e2 s m ca2 have k2: "tacking_right n2 = Some False" by simp
  from t2 k2 m ta2 have l2: "tacking_left n2 = Some True" and o2: "out_wanted out2 = 55"
    by simp_all
  have b: "45 \<le> Bearing 100 \<and> Bearing 100 < 315 \<and> \<bar>delta (Bearing 100) (Bearing 105)\<bar> < 45"
    by (simp add: Bearing_def pymod_def delta_def)
  show ?thesis unfolding r s1 using b by (simp add: p s s2 k1 l1 o1 k2 l2 o2)
qed

text \<open>
  C2 as stated fails. With the wind at 100 and a waypoint bearing 130, which is 30 from
  the wind and so outside the cone of 15, the state machine engages and steers 145. With
  the wind at 0 and a target bearing 5, inside the cone, it does not engage, for a bare
  bearing and for a waypoint alike: the flags stay cleared and the heading stays 5.
\<close>

theorem tacking_window_is_tacking_angle:
  "map_sum id (\<lambda>(n', out). (tacking_right n', tacking_left n', out_wanted out))
     (run_step (init True True True) (Some (TPoint (Point 0 0))) (sample 140 130 100 1000))
   = Inr (Some True, Some False, 145) \<and>
   \<not> \<bar>delta (Bearing 100) (Bearing 130)\<bar> \<le> cone_angle (init True True True) \<and>
   map_sum id (\<lambda>(n', out). (tacking_right n', tacking_left n', out_wanted out))
     (run_step (init True True True) (Some (TBearing 5)) (sample 0 0 0 1000))
   = Inr (None, None, 5) \<and>
   map_sum id (\<lambda>(n', out). (tacking_right n', tacking_left n', out_wanted out))
     (run_step (init True True True) (Some (TPoint (Point 0 0))) (sample 0 5 0 1000))
   = Inr (None, None, 5) \<and>
   \<bar>delta (Bearing 0) (Bearing 5)\<bar> \<le> cone_angle (init True True True)"
  by (simp add: evaluate)

lemma target_heading_range:
  "target_heading n b = Some h \<Longrightarrow> 0 \<le> h \<and> h < 360"
  using Bearing_range
  by (auto simp: target_heading_def split: option.splits target.splits)

text \<open>
  Away from north the no-go cone is respected: with tacking enabled and a wind direction
  in \<open>[45, 315)\<close>, the heading handed to the controller on a completed tick of the loop
  is at least \<open>cone_angle\<close> away from the wind direction.
\<close>

lemma no_go_cone_away_from_north:
  assumes "run (init tk ct em) ticks = Inr (n, outs)"
      and "enable_tacking n"
      and "update n b = Inr (n', out)"
      and "45 \<le> Bearing (wind_direction b)" and "Bearing (wind_direction b) < 315"
  shows "cone_angle n \<le> \<bar>delta (Bearing (wind_direction b)) (out_wanted out)\<bar>"
proof -
  let ?W = "Bearing (wind_direction b)"
  have c: "coherent n" using assms(1) by (rule run_init_coherent)
  then have ta: "tacking_angle n = 45" and ca: "cone_angle n = 15"
    and fl: "(tacking_right n, tacking_left n) \<in>
               {(None, None), (Some True, Some False), (Some False, Some True)}"
    by (simp_all add: coherent_def)
  from assms(3) obtain wv rr ll and t :: real where
    tl: "tacking_logic n b (target_heading n b) = Inr (wv, rr, ll)" and
    out: "out = \<lparr>out_heading = Bearing (heading b), out_wanted = wv,
            out_error = delta (Bearing (heading b)) wv + cross_track n b,
            out_rudder = clamp_rudder (- (k_p n * (delta (Bearing (heading b)) wv + cross_track n b) +
               k_i n * clamp_integrator (integrator n + (delta (Bearing (heading b)) wv + cross_track n b))
                          (integrator_max n))),
            out_sail = update_sail b\<rparr>"
    by (rule update_Inr)
  have ow: "out_wanted out = wv" by (simp add: out)
  from tl obtain h where th: "target_heading n b = Some h"
    by (cases "target_heading n b") (simp_all add: tacking_logic_def)
  have hr: "0 \<le> h" "h < 360" using target_heading_range [OF th] by simp_all
  have tl': "tacking_logic n b (Some h) = Inr (wv, rr, ll)" using tl th by simp
  have cond: "tacking_condition n b h = (\<bar>delta ?W h\<bar> < 45)"
    using window_no_wrap [OF assms(4,5) hr] assms(2) by (simp add: tacking_condition_def ta)
  have edge: "\<bar>delta ?W (bearing_add ?W 45)\<bar> = 45" "\<bar>delta ?W (bearing_sub ?W 45)\<bar> = 45"
    using assms(4,5)
    by (simp_all add: bearing_add_def bearing_sub_def Bearing_def [of "_ + _"]
          Bearing_def [of "_ - _"] pymod_small delta_def)
  show ?thesis
  proof (cases "tacking_condition n b h")
    case False
    then have "wv = h" using tl' by (simp add: tacking_logic_idle)
    then show ?thesis using False cond by (simp add: ow ca)
  next
    case True
    from True tl' fl have "wv = bearing_add ?W 45 \<or> wv = bearing_sub ?W 45"
      by (rule tacking_logic_engaged) (simp add: Let_def ta split: if_splits)
    then show ?thesis using edge by (auto simp: ow ca)
  qed
qed

text \<open>
  C1 fails where the window wraps. The test of lines 95 and 96 compares normalised
  bearings, so for a wind direction within 45 of north one edge of the window wraps past
  0 and no heading passes both comparisons: tacking never engages. With the wind at 0
  and a target bearing 5, bare or waypoint, the heading handed to the controller is 5,
  five degrees from the wind and inside the cone of 15.
\<close>

theorem tacking_never_engages_near_north:
  "map_sum id (\<lambda>(n, outs). map out_wanted outs)
     (run (init True True True) [(Some (TBearing 5), sample 0 0 0 1000)]) = Inr [5] \<and>
   map_sum id (\<lambda>(n, outs). map out_wanted outs)
     (run (init True True True) [(Some (TPoint (Point 0 0)), sample 0 5 0 1000)]) = Inr [5] \<and>
   \<bar>delta (Bearing 0) 5\<bar> < cone_angle (init True True True)"
  by (simp add: evaluate)

section \<open>The emergency watchdog and exceptions\<close>

text \<open>
  C5 fails on the first saturated tick. The constructor sets
  \<^verbatim>\<open>last_time_rudder_not_maxed\<close> to 0, not to the current time, so on the very first tick
  with a saturated rudder (error 90, rudder -54, clock 1000) the test
  \<open>now - 0 > 20\<close> holds and the recovery is triggered after no time of saturation at all.
  The trigger itself is the call of line 160, which raises \<^verbatim>\<open>NameError\<close>.
\<close>

theorem watchdog_fires_on_first_tick:
  "run (init True True True) [(Some (TBearing 90), sample 0 0 180 1000)] = Inl NameError \<and>
   watchdog (init True True True) 1000 (- 54) = Inl NameError \<and>
   last_time_rudder_not_maxed (init True True True) = 0"
  by (simp add: evaluate)

text \<open>
  C6 fails: \<^verbatim>\<open>update\<close> raises. In the emergency branch, after a tick with a moderate
  rudder at time 1000 and a saturated tick at time 1030, line 160 calls the undefined
  global \<^verbatim>\<open>override_rudder\<close>. In the tacking branch, a bare bearing of 110 inside the
  window of a wind at 100 reaches line 98, which calls \<^verbatim>\<open>bearing_to\<close> on a bearing. And
  a tick before any target was set compares \<^verbatim>\<open>None\<close> with a bearing.
\<close>

theorem update_raises:
  "run (init True True True)
     [(Some (TBearing 90), sample 80 0 180 1000), (None, sample 0 0 180 1030)] = Inl NameError \<and>
   run (init True True True) [(Some (TBearing 110), sample 100 0 100 1000)] = Inl AttributeError \<and>
   run (init True True True) [(None, sample 0 0 180 1000)] = Inl TypeError"
  by (simp add: evaluate)

end
